theory Spec2Isabelle
  imports Complex_Main
begin

section \<open>The Display Client (react_frontend/src/App.js)\<close>

subsection \<open>JavaScript values\<close>

text \<open>
  A number as \<^verbatim>\<open>res.json()\<close> produces it: a double. Every finite double is a rational
  (\<open>Finite 0\<close> stands for both zeros), a literal beyond the range, such as 1e400, parses
  to an infinity, and \<^verbatim>\<open>JSON.parse\<close> yields no NaN. Not every rational is a double; what
  is proved for every \<open>number\<close> holds for the doubles among them.
\<close>

datatype number = Finite rat | PosInfinity | NegInfinity

text \<open>
  The values \<^verbatim>\<open>res.json()\<close> produces. \<open>JNull\<close> is also JavaScript's \<^verbatim>\<open>null\<close> in the
  component's state; \<^verbatim>\<open>undefined\<close> is \<open>None\<close> of \<open>json option\<close>. \<open>JObj\<close> lists the own
  properties of a parsed object.
\<close>

datatype json =
    JNull
  | JBool bool
  | JNum number
  | JStr string
  | JArr "json list"
  | JObj "(string \<times> json) list"

text \<open>
  \<^verbatim>\<open>v.k\<close> for a value \<open>v\<close> that is not null, and a key \<open>k\<close> that no prototype defines
  (the component reads \<^verbatim>\<open>path\<close>, \<^verbatim>\<open>rx_signal\<close>, \<^verbatim>\<open>timestamp\<close> and \<^verbatim>\<open>error\<close>): an object
  gives its own property, every other value gives \<^verbatim>\<open>undefined\<close>.
\<close>

fun get_prop :: "json \<Rightarrow> string \<Rightarrow> json option" where
  "get_prop (JObj kvs) k = map_of kvs k"
| "get_prop _ k = None"

text \<open>\<^verbatim>\<open>v?.k\<close>: \<^verbatim>\<open>undefined\<close> when \<open>v\<close> is null.\<close>

definition opt_chain :: "json \<Rightarrow> string \<Rightarrow> json option" where
  "opt_chain v k = (case v of JNull \<Rightarrow> None | _ \<Rightarrow> get_prop v k)"

text \<open>JavaScript's truthiness: of the numbers, only zero is falsy.\<close>

fun truthy :: "json \<Rightarrow> bool" where
  "truthy JNull = False"
| "truthy (JBool b) = b"
| "truthy (JNum n) = (n \<noteq> Finite 0)"
| "truthy (JStr s) = (s \<noteq> [])"
| "truthy (JArr xs) = True"
| "truthy (JObj kvs) = True"

text \<open>\<^verbatim>\<open>a || d\<close> and \<^verbatim>\<open>a ?? d\<close>, for \<open>a\<close> possibly \<^verbatim>\<open>undefined\<close>.\<close>

definition js_or :: "json option \<Rightarrow> json \<Rightarrow> json" where
  "js_or a d = (case a of None \<Rightarrow> d | Some v \<Rightarrow> if truthy v then v else d)"

definition nullish :: "json option \<Rightarrow> json \<Rightarrow> json" where
  "nullish a d = (case a of None \<Rightarrow> d | Some JNull \<Rightarrow> d | Some v \<Rightarrow> v)"

subsection \<open>Component state\<close>

text \<open>The four \<^verbatim>\<open>useState\<close> slots of \<^verbatim>\<open>App\<close>, with their initial values.\<close>

record app_state =
  theme :: string
  loading :: bool
  rxData :: json
  error :: json

definition initial_state :: app_state where
  "initial_state = \<lparr>theme = ''light'', loading = False, rxData = JNull, error = JNull\<rparr>"

text \<open>\<^verbatim>\<open>setTheme(prevTheme => prevTheme === 'light' ? 'dark' : 'light')\<close>\<close>

definition toggleTheme :: "app_state \<Rightarrow> app_state" where
  "toggleTheme s = s\<lparr>theme := (if theme s = ''light'' then ''dark'' else ''light'')\<rparr>"

subsection \<open>fetchRx\<close>

text \<open>
  A settled promise: fulfilled with a value, or rejected with an error whose
  \<^verbatim>\<open>message\<close> is the string.
\<close>

datatype 'a settled = Fulfilled 'a | Rejected string

text \<open>
  What \<^verbatim>\<open>fetchRx\<close> reads of a \<^verbatim>\<open>Response\<close>: \<^verbatim>\<open>res.ok\<close>, \<^verbatim>\<open>res.status\<close>, and how
  \<^verbatim>\<open>res.text()\<close> and \<^verbatim>\<open>res.json()\<close> settle.
\<close>

record response =
  ok :: bool
  status :: nat
  body_text :: "string settled"
  body_json :: "json settled"

text \<open>The decimal digits of a number, as a template literal writes \<^verbatim>\<open>res.status\<close>.\<close>

function decimal :: "nat \<Rightarrow> string" where
  "decimal n =
     (if n < 10 then [char_of (48 + n)]
      else decimal (n div 10) @ [char_of (48 + n mod 10)])"
  by pat_completeness auto
termination
  by (relation "measure id") auto

declare decimal.simps [simp del]

definition http_error_message :: "nat \<Rightarrow> string \<Rightarrow> string" where
  "http_error_message st t = ''HTTP '' @ decimal st @ '': '' @ t"

text \<open>
  The \<^verbatim>\<open>try\<close> block. It returns the state its \<^verbatim>\<open>setRxData\<close> and \<^verbatim>\<open>setError\<close> calls
  leave, and the message of the error it threw, if any. \<open>tm\<close> is the message of the
  engine's TypeError for \<^verbatim>\<open>data.error\<close> on a null \<^verbatim>\<open>data\<close>.
\<close>

definition fetchRx_try :: "string \<Rightarrow> response settled \<Rightarrow> app_state \<Rightarrow> app_state \<times> string option" where
  "fetchRx_try tm net s =
     (case net of
        Rejected m \<Rightarrow> (s, Some m)
      | Fulfilled res \<Rightarrow>
          if \<not> ok res then
            (case body_text res of
               Rejected m \<Rightarrow> (s, Some m)
             | Fulfilled t \<Rightarrow> (s, Some (http_error_message (status res) t)))
          else
            (case body_json res of
               Rejected m \<Rightarrow> (s, Some m)
             | Fulfilled data \<Rightarrow>
                 (let s1 = s\<lparr>rxData := data\<rparr> in
                  case data of
                    JNull \<Rightarrow> (s1, Some tm)
                  | _ \<Rightarrow>
                      (case get_prop data ''error'' of
                         None \<Rightarrow> (s1, None)
                       | Some v \<Rightarrow> if truthy v then (s1\<lparr>error := v\<rparr>, None) else (s1, None)))))"

text \<open>
  One execution of \<^verbatim>\<open>fetchRx\<close> from state \<open>s\<close>, where the request settles as \<open>net\<close>:
  \<^verbatim>\<open>setLoading(true); setError(null); try {...} catch (e) { setError(e.message) }
  finally { setLoading(false) }\<close>.
\<close>

definition fetchRx :: "string \<Rightarrow> response settled \<Rightarrow> app_state \<Rightarrow> app_state" where
  "fetchRx tm net s =
     (let s1 = s\<lparr>loading := True\<rparr>;
          s2 = s1\<lparr>error := JNull\<rparr>;
          (s3, thrown) = fetchRx_try tm net s2;
          s4 = (case thrown of None \<Rightarrow> s3 | Some m \<Rightarrow> s3\<lparr>error := JStr m\<rparr>)
      in s4\<lparr>loading := False\<rparr>)"

subsection \<open>Rendering\<close>

text \<open>
  The part of the returned element that shows the reading (the \<^verbatim>\<open>div\<close> of lines 64 to
  85). A \<open>jsx\<close> is what a JSX expression evaluates to: \<open>Child v\<close> is the value \<open>v\<close>
  placed as a child (React shows a string or a number, and nothing for null),
  \<open>Para v\<close> is the paragraph \<^verbatim>\<open><p>{v}</p>\<close>, and \<open>Updated v\<close> is the template string
  \<^verbatim>\<open>`Updated: ${v}`\<close>.
\<close>

datatype jsx = Child json | Para json | Updated json

text \<open>The placeholder: the em dash U+2014, in UTF-8.\<close>

definition placeholder :: string where
  "placeholder = [CHR 0xE2, CHR 0x80, CHR 0x94]"

record reading_view =
  path_child :: json
  rx_child :: json
  updated_child :: jsx
  error_child :: jsx

datatype view = LoadingView | ReadingView reading_view

definition render_reading :: "app_state \<Rightarrow> reading_view" where
  "render_reading s =
     \<lparr>path_child = js_or (opt_chain (rxData s) ''path'') (JStr ''1/1/3/2/1''),
      rx_child = nullish (opt_chain (rxData s) ''rx_signal'') (JStr placeholder),
      updated_child =
        (case opt_chain (rxData s) ''timestamp'' of
           None \<Rightarrow> Child (JStr [])
         | Some v \<Rightarrow> if truthy v then Updated v else Child (JStr [])),
      error_child = (if truthy (error s) then Para (error s) else Child (error s))\<rparr>"

definition render :: "app_state \<Rightarrow> view" where
  "render s = (if loading s then LoadingView else ReadingView (render_reading s))"

subsection \<open>What React puts on the page\<close>

text \<open>
  The text React renders for a child value. A string gives its characters and a
  number its digits, \<open>Digits n\<close> standing for \<^verbatim>\<open>String(n)\<close> (digits, sign, point, exponent
  or \<^verbatim>\<open>Infinity\<close>: never the placeholder). Null, undefined and the booleans give
  nothing, an array gives its elements in order, and a plain object makes the render
  throw, which is \<open>None\<close>. \<open>Interpolated v\<close> is the text of \<^verbatim>\<open>${v}\<close> in a template string.
\<close>

datatype piece = Chars string | Digits number | Interpolated json

fun child_text :: "json \<Rightarrow> piece list option"
  and children_text :: "json list \<Rightarrow> piece list option" where
  "child_text JNull = Some []"
| "child_text (JBool b) = Some []"
| "child_text (JNum n) = Some [Digits n]"
| "child_text (JStr s) = Some (if s = [] then [] else [Chars s])"
| "child_text (JArr xs) = children_text xs"
| "child_text (JObj kvs) = None"
| "children_text [] = Some []"
| "children_text (x # xs) =
     (case child_text x of
        None \<Rightarrow> None
      | Some a \<Rightarrow> (case children_text xs of None \<Rightarrow> None | Some b \<Rightarrow> Some (a @ b)))"






subsection \<open>The documented payload\<close>




subsection \<open>Example responses\<close>


definition reading_payload :: json where
  "reading_payload =
     JObj [(''path'', JStr ''1/1/3/2/1''), (''rx_signal'', JNum (Finite (- 192 / 10))),
           (''timestamp'', JStr ''2025-01-01T00:00:00Z''), (''error'', JNull)]"






section \<open>The Line Parser (backend, section 4.2 of the specification)\<close>

text \<open>
  The backend's Python sources are not part of the sources this development covers;
  only its README is. The parser below is written from the specification's contract
  for \<^verbatim>\<open>extractSignal\<close>, sentence by sentence.
\<close>

text \<open>Modelled from the spec: the one failure of \<^verbatim>\<open>extractSignal\<close> (backend parser, missing),
  "fails with NotFoundError".\<close>

datatype parse_error = NotFoundError

text \<open>Modelled from the spec: "surrounding whitespace/column formatting" (backend parser,
  missing). Within a line, blanks, tabs and the carriage return of a Telnet line end
  separate tokens.\<close>

definition is_space :: "char \<Rightarrow> bool" where
  "is_space c = (c = CHR '' '' \<or> c = CHR 0x09 \<or> c = CHR 0x0D)"

text \<open>Modelled from the spec: the digits of a "signed decimal number" (backend parser,
  missing).\<close>

definition is_digit :: "char \<Rightarrow> bool" where
  "is_digit c = (48 \<le> (of_char c :: nat) \<and> (of_char c :: nat) \<le> 57)"

text \<open>Modelled from the spec: the letters of a "unit suffix" such as dBm (backend parser,
  missing).\<close>

definition is_letter :: "char \<Rightarrow> bool" where
  "is_letter c =
     ((65 \<le> (of_char c :: nat) \<and> (of_char c :: nat) \<le> 90)
      \<or> (97 \<le> (of_char c :: nat) \<and> (of_char c :: nat) \<le> 122))"

text \<open>Modelled from the spec: "operates on the full captured output as plain text, line by
  line" (backend parser, missing). \<open>split_on p\<close> cuts a text at every character that
  satisfies \<open>p\<close>; lines are cut at the line feed, tokens at whitespace.\<close>

fun split_on :: "(char \<Rightarrow> bool) \<Rightarrow> string \<Rightarrow> string list" where
  "split_on p [] = [[]]"
| "split_on p (c # cs) =
     (if p c then [] # split_on p cs
      else (case split_on p cs of [] \<Rightarrow> [[c]] | w # ws \<Rightarrow> (c # w) # ws))"

text \<open>Modelled from the spec: "line by line" (backend parser, missing): the lines of the
  output are its pieces between line feeds.\<close>

definition lines_of :: "string \<Rightarrow> string list" where
  "lines_of rawText = split_on (\<lambda>c. c = CHR 0x0A) rawText"

text \<open>Modelled from the spec: the "path token" and its neighbours (backend parser, missing):
  the maximal runs of characters of a line that are not whitespace.\<close>

definition tokens :: "string \<Rightarrow> string list" where
  "tokens l = filter (\<lambda>w. w \<noteq> []) (split_on is_space l)"

text \<open>Modelled from the spec: the value of the digits of a "signed decimal number" (backend
  parser, missing), read in base ten.\<close>

definition digits_value :: "string \<Rightarrow> nat" where
  "digits_value ds = foldl (\<lambda>a c. 10 * a + (of_char c - 48)) 0 ds"

text \<open>Modelled from the spec: the sign of a "signed decimal number" (backend parser,
  missing): whether the text starts with a minus, and the text after the sign.\<close>

fun split_sign :: "string \<Rightarrow> bool \<times> string" where
  "split_sign [] = (False, [])"
| "split_sign (c # cs) =
     (if c = CHR ''-'' then (True, cs)
      else if c = CHR ''+'' then (False, cs)
      else (False, c # cs))"

text \<open>Modelled from the spec: a "signed" number (backend parser, missing): the magnitude,
  negated under a minus.\<close>

definition signed :: "bool \<Rightarrow> rat \<Rightarrow> rat" where
  "signed neg x = (if neg then - x else x)"

text \<open>Modelled from the spec: "a signed decimal number" (backend parser, missing): an
  optional sign, digits, and optionally a point and more digits. The result is the
  number the decimal denotes; its rounding to a float is not modelled.\<close>

definition parse_signed_decimal :: "string \<Rightarrow> rat option" where
  "parse_signed_decimal t =
     (let (neg, u) = split_sign t;
          ip = takeWhile is_digit u
      in if ip = [] then None
         else (case dropWhile is_digit u of
                 [] \<Rightarrow> Some (signed neg (of_nat (digits_value ip)))
               | d # fp \<Rightarrow>
                   if d = CHR ''.'' \<and> fp \<noteq> [] \<and> list_all is_digit fp
                   then Some (signed neg (of_nat (digits_value ip)
                          + of_nat (digits_value fp) / 10 ^ length fp))
                   else None))"

text \<open>Modelled from the spec: "optionally with a unit suffix to be stripped" (backend
  parser, missing): letters at the end of a token are dropped before it is read as a
  number.\<close>

definition strip_unit :: "string \<Rightarrow> string" where
  "strip_unit t = rev (dropWhile is_letter (rev t))"

text \<open>Modelled from the spec: "a signal measurement expressed as a signed decimal number
  (optionally with a unit suffix to be stripped)" (backend parser, missing): what one
  token reads as.\<close>

definition reading_of_token :: "string \<Rightarrow> rat option" where
  "reading_of_token t = parse_signed_decimal (strip_unit t)"

text \<open>Modelled from the spec: "the first matching line wins (deterministic, order = output
  order)" (backend parser, missing): the first element on which \<open>f\<close> succeeds.\<close>

fun first_match :: "('a \<Rightarrow> 'b option) \<Rightarrow> 'a list \<Rightarrow> 'b option" where
  "first_match f [] = None"
| "first_match f (x # xs) = (case f x of Some y \<Rightarrow> Some y | None \<Rightarrow> first_match f xs)"

text \<open>Modelled from the spec: "a line associating the target path token with a signal
  measurement", "anchored to the exact path token, not substring containment" (backend
  parser, missing): some token of the line equals the target path, and the reading is
  the first token after it that reads as a signed decimal.\<close>

definition line_reading :: "string \<Rightarrow> string \<Rightarrow> rat option" where
  "line_reading targetPath l =
     (case dropWhile (\<lambda>t. t \<noteq> targetPath) (tokens l) of
        [] \<Rightarrow> None
      | _ # rest \<Rightarrow> first_match reading_of_token rest)"

text \<open>Modelled from the spec: \<^verbatim>\<open>extractSignal(rawText, targetPath)\<close> (backend parser,
  missing): the reading of the first line that has one for the target path; "if the
  target path does not appear anywhere in the output, or appears without an associated
  numeric reading, fails with NotFoundError".\<close>

definition extractSignal :: "string \<Rightarrow> string \<Rightarrow> parse_error + rat" where
  "extractSignal rawText targetPath =
     (case first_match (line_reading targetPath) (lines_of rawText) of
        None \<Rightarrow> Inl NotFoundError
      | Some v \<Rightarrow> Inr v)"

text \<open>The outputs of Scenarios A and B of the specification, a session transcript
  that holds A's line between the command echo and the prompt, padded, with Telnet's
  line ends, and a line with a tab, a plus sign and the unit attached to the number.\<close>

definition scenario_A :: string where
  "scenario_A = ''1/1/3/2/1    rx-signal: -19.2 dBm''"

definition scenario_B :: string where
  "scenario_B = ''1/1/3/2/10 rx-signal: -5.0 dBm''"

definition transcript :: string where
  "transcript =
     ''show equipment ont optics'' @ [CHR 0x0D, CHR 0x0A]
     @ ''  '' @ scenario_A @ '' '' @ [CHR 0x0D, CHR 0x0A]
     @ ''1/1/3/2/1 rx-signal: -7.5 dBm'' @ [CHR 0x0D, CHR 0x0A]
     @ ''admin#''"

definition compact_line :: string where
  "compact_line = ''1/1/3/2/1'' @ [CHR 0x09] @ ''+7dBm''"

section \<open>Properties of the Display Client\<close>

subsection \<open>fetchRx\<close>

lemma fetchRx_keeps_theme: "theme (fetchRx tm net s) = theme s"
  by (simp add: fetchRx_def fetchRx_try_def Let_def
      split: prod.splits option.splits settled.splits json.splits)

text \<open>
  Claim C9: every execution of \<^verbatim>\<open>fetchRx\<close> that completes ends with \<^verbatim>\<open>loading\<close> false,
  however the request, the status check and the body read turn out.
\<close>

theorem fetchRx_clears_loading: "loading (fetchRx tm net s) = False"
  by (simp add: fetchRx_def Let_def split: prod.splits option.splits)

text \<open>
  Claim C10: on a response whose \<^verbatim>\<open>ok\<close> is false, \<^verbatim>\<open>fetchRx\<close> leaves \<^verbatim>\<open>rxData\<close> as it
  was, and when the body text \<open>t\<close> can be read it sets \<^verbatim>\<open>error\<close> to
  \<^verbatim>\<open>HTTP <status>: <t>\<close>; the view then shows what the stored reading gave before,
  with the new error in its paragraph.
\<close>

theorem fetchRx_http_error:
  assumes "\<not> ok res"
  shows "rxData (fetchRx tm (Fulfilled res) s) = rxData s
       \<and> (\<forall>t. body_text res = Fulfilled t \<longrightarrow>
            error (fetchRx tm (Fulfilled res) s)
              = JStr (''HTTP '' @ decimal (status res) @ '': '' @ t)
          \<and> render (fetchRx tm (Fulfilled res) s) =
              ReadingView ((render_reading (s\<lparr>loading := False\<rparr>))
                \<lparr>error_child := Para (JStr (''HTTP '' @ decimal (status res) @ '': '' @ t))\<rparr>))"
  using assms
  by (auto simp: fetchRx_def fetchRx_try_def http_error_message_def render_def
      render_reading_def Let_def split: settled.splits)

theorem fetchRx_http_error_witness:
  "\<not> ok \<lparr>ok = False, status = 503, body_text = Fulfilled ''Service Unavailable'',
           body_json = Rejected ''Unexpected token''\<rparr>
   \<and> rxData (fetchRx ''tm''
        (Fulfilled \<lparr>ok = False, status = 503, body_text = Fulfilled ''Service Unavailable'',
                    body_json = Rejected ''Unexpected token''\<rparr>)
        (initial_state\<lparr>rxData := reading_payload\<rparr>)) = reading_payload
   \<and> error (fetchRx ''tm''
        (Fulfilled \<lparr>ok = False, status = 503, body_text = Fulfilled ''Service Unavailable'',
                    body_json = Rejected ''Unexpected token''\<rparr>)
        (initial_state\<lparr>rxData := reading_payload\<rparr>)) = JStr ''HTTP 503: Service Unavailable''"
proof -
  let ?res = "\<lparr>ok = False, status = 503, body_text = Fulfilled ''Service Unavailable'',
               body_json = Rejected ''Unexpected token''\<rparr>"
  have h: "\<not> ok ?res" by simp
  have d: "decimal 503 = ''503''" by code_simp
  show ?thesis
    using h fetchRx_http_error [OF h, of "''tm''" "initial_state\<lparr>rxData := reading_payload\<rparr>"] d
    by simp
qed

subsection \<open>The theme toggle\<close>

text \<open>The theme is \<^verbatim>\<open>'light'\<close> at first, and nothing but \<^verbatim>\<open>toggleTheme\<close> writes it.\<close>

lemma initial_theme: "theme initial_state = ''light''"
  by (simp add: initial_state_def)

lemma toggleTheme_theme_range:
  "theme (toggleTheme s) = ''light'' \<or> theme (toggleTheme s) = ''dark''"
  by (simp add: toggleTheme_def)

text \<open>
  Claim C8: \<^verbatim>\<open>toggleTheme\<close> maps \<^verbatim>\<open>'light'\<close> to \<^verbatim>\<open>'dark'\<close> and \<^verbatim>\<open>'dark'\<close> to \<^verbatim>\<open>'light'\<close>; from
  either theme, toggling twice restores the state; and it leaves \<^verbatim>\<open>loading\<close>,
  \<^verbatim>\<open>rxData\<close> and \<^verbatim>\<open>error\<close> alone.
\<close>

theorem toggleTheme_involution:
  assumes "theme s = ''light'' \<or> theme s = ''dark''"
  shows "(theme s = ''light'' \<longrightarrow> theme (toggleTheme s) = ''dark'')
       \<and> (theme s = ''dark'' \<longrightarrow> theme (toggleTheme s) = ''light'')
       \<and> toggleTheme (toggleTheme s) = s
       \<and> loading (toggleTheme s) = loading s
       \<and> rxData (toggleTheme s) = rxData s
       \<and> error (toggleTheme s) = error s"
  using assms by (cases s) (auto simp: toggleTheme_def)

theorem toggleTheme_involution_witness:
  "(theme initial_state = ''light'' \<or> theme initial_state = ''dark'')
   \<and> theme (toggleTheme initial_state) = ''dark''
   \<and> toggleTheme (toggleTheme initial_state) = initial_state"
proof -
  have h: "theme initial_state = ''light'' \<or> theme initial_state = ''dark''"
    by (simp add: initial_state_def)
  show ?thesis
    using h toggleTheme_involution [OF h] by (simp add: initial_state_def)
qed

subsection \<open>What the page shows of a received payload\<close>













section \<open>Properties of the Line Parser\<close>

subsection \<open>Lines and tokens\<close>

lemma first_match_skips:
  "(\<forall>b\<in>set before. f b = None) \<Longrightarrow> f l = Some v
   \<Longrightarrow> first_match f (before @ l # after) = Some v"
  by (induction before) auto

lemma first_match_none: "(\<forall>x\<in>set xs. f x = None) \<Longrightarrow> first_match f xs = None"
  by (induction xs) auto

lemma split_on_nonempty: "split_on p l \<noteq> []"
  by (induction l) (auto split: list.splits)

lemma tokens_lead: "\<forall>c\<in>set ws. is_space c \<Longrightarrow> tokens (ws @ l) = tokens l"
  by (induction ws) (auto simp: tokens_def)

lemma split_on_trail:
  "\<forall>c\<in>set ws. p c \<Longrightarrow> split_on p (l @ ws) = split_on p l @ replicate (length ws) []"
proof (induction l)
  case Nil
  then show ?case by (induction ws) (auto simp: replicate_append_same)
next
  case (Cons c l)
  then show ?case using split_on_nonempty [of p l]
    by (cases "split_on p l") auto
qed

lemma tokens_trail: "\<forall>c\<in>set ws. is_space c \<Longrightarrow> tokens (l @ ws) = tokens l"
  by (simp add: tokens_def split_on_trail)

lemma split_on_cut: "p g \<Longrightarrow> split_on p (a @ g # b) = split_on p a @ split_on p b"
proof (induction a)
  case Nil
  then show ?case by simp
next
  case (Cons c a)
  then show ?case using split_on_nonempty [of p a]
    by (cases "split_on p a") auto
qed

lemma split_on_word: "\<forall>c\<in>set w. \<not> p c \<Longrightarrow> split_on p w = [w]"
  by (induction w) auto

lemma lines_of_cut:
  "CHR 0x0A \<notin> set a \<Longrightarrow> lines_of (a @ CHR 0x0A # b) = a # lines_of b"
  using split_on_word [of a "\<lambda>c. c = CHR 0x0A"] by (auto simp: lines_of_def split_on_cut)

lemma tokens_word:
  assumes "w \<noteq> []" and "set w \<inter> {CHR '' '', CHR 0x09, CHR 0x0D} = {}"
      and "g \<in> {CHR '' '', CHR 0x09, CHR 0x0D}"
  shows "tokens w = [w]" and "tokens (w @ g # r) = w # tokens r"
proof -
  have w: "\<forall>c\<in>set w. \<not> is_space c"
    using assms(2) by (auto simp: is_space_def)
  have g: "is_space g"
    using assms(3) by (auto simp: is_space_def)
  show "tokens w = [w]"
    using assms(1) by (simp add: tokens_def split_on_word [OF w])
  show "tokens (w @ g # r) = w # tokens r"
    using assms(1) by (simp add: tokens_def split_on_cut [of is_space, OF g] split_on_word [OF w])
qed

subsection \<open>Reading a number\<close>

text \<open>
  The reader accepts every signed decimal and returns the number it denotes: for a sign
  (none, minus or plus), digits \<open>ip\<close>, an optional point with digits \<open>fp\<close>, and a unit
  of letters attached or not, the reading is the sign times \<open>ip + fp / 10 ^ length fp\<close>,
  the digit lists read in base ten.
\<close>

lemma digit_char_props:
  assumes "(d :: nat) < 10"
  shows "is_digit (''0123456789'' ! d) \<and> (of_char (''0123456789'' ! d) :: nat) = 48 + d"
proof -
  have "d \<in> {0, 1, 2, 3, 4, 5, 6, 7, 8, 9}"
    using assms by auto
  then show ?thesis
    by (auto simp: is_digit_def)
qed

lemma digit_not_letter: "is_digit c \<Longrightarrow> \<not> is_letter c"
  by (auto simp: is_digit_def is_letter_def)

lemma letters_are_letters:
  "c \<in> set ''abcdefghijklmnopqrstuvwxyzABCDEFGHIJKLMNOPQRSTUVWXYZ'' \<Longrightarrow> is_letter c"
  by (auto simp: is_letter_def)

lemma point_not_digit: "\<not> is_digit CHR ''.''" "\<not> is_digit CHR ''-''" "\<not> is_digit CHR ''+''"
  by (simp_all add: is_digit_def)

lemma foldl_digits:
  "\<forall>d\<in>set ds. d < 10 \<Longrightarrow>
   foldl (\<lambda>a c. 10 * a + (of_char c - 48)) (acc :: nat) (map (\<lambda>d. ''0123456789'' ! d) ds)
     = foldl (\<lambda>a d. 10 * a + d) acc (ds :: nat list)"
  by (induction ds arbitrary: acc) (simp_all add: digit_char_props)

lemma digits_value_digits:
  "\<forall>d\<in>set ds. d < 10 \<Longrightarrow>
   digits_value (map (\<lambda>d. ''0123456789'' ! d) ds) = foldl (\<lambda>a d. 10 * a + d) 0 (ds :: nat list)"
  by (simp add: digits_value_def foldl_digits)

lemma strip_unit_suffix:
  assumes "\<forall>c\<in>set unit. is_letter c" and "t \<noteq> []" and "\<not> is_letter (last t)"
  shows "strip_unit (t @ unit) = t"
proof -
  have "dropWhile is_letter (rev unit @ rev t) = dropWhile is_letter (rev t)"
    using assms(1) by (intro dropWhile_append2) simp
  moreover have "dropWhile is_letter (rev t) = rev t"
    using assms(2,3) by (cases "rev t") (auto simp: last_rev hd_rev)
  ultimately show ?thesis by (simp add: strip_unit_def)
qed


lemma takeWhile_run: "\<forall>x\<in>set xs. P x \<Longrightarrow> takeWhile P (xs @ ys) = xs @ takeWhile P ys"
  by (induction xs) auto

lemma dropWhile_run: "\<forall>x\<in>set xs. P x \<Longrightarrow> dropWhile P (xs @ ys) = dropWhile P ys"
  by (induction xs) auto

lemma split_sign_digits:
  assumes "sg = [] \<or> sg = ''-'' \<or> sg = ''+''" and "is_digit c"
  shows "split_sign (sg @ c # r) = (sg = ''-'', c # r)"
  using assms point_not_digit by auto

lemma parse_signed_decimal_digits:
  fixes ip fp :: "nat list"
  assumes "sg = [] \<or> sg = ''-'' \<or> sg = ''+''"
      and "ip \<noteq> []" and "\<forall>d\<in>set ip. d < 10" and "\<forall>d\<in>set fp. d < 10"
  shows "parse_signed_decimal
           (sg @ map (\<lambda>d. ''0123456789'' ! d) ip
              @ (if fp = [] then [] else CHR ''.'' # map (\<lambda>d. ''0123456789'' ! d) fp))
         = Some ((if sg = ''-'' then - 1 else 1)
             * (of_nat (foldl (\<lambda>a d. 10 * a + d) 0 ip)
                + of_nat (foldl (\<lambda>a d. 10 * a + d) 0 fp) / 10 ^ length fp))"
proof -
  let ?D = "map (\<lambda>d. ''0123456789'' ! d)"
  let ?N = "foldl (\<lambda>a d. 10 * a + d) (0 :: nat)"
  define F where "F = (if fp = [] then [] else CHR ''.'' # ?D fp)"
  define neg where "neg = (sg = ''-'')"
  obtain d ds where ip: "ip = d # ds" using assms(2) by (cases ip) auto
  have dig: "\<forall>c\<in>set (?D ip). is_digit c" "\<forall>c\<in>set (?D fp). is_digit c"
    using assms(3,4) by (auto simp: digit_char_props)
  have sp: "split_sign (sg @ ?D ip @ F) = (neg, ?D ip @ F)"
    using split_sign_digits [OF assms(1), of "''0123456789'' ! d" "?D ds @ F"] dig(1)
    by (simp add: ip neg_def)
  have stop: "takeWhile is_digit F = []" "dropWhile is_digit F = F"
    using point_not_digit(1) by (simp_all add: F_def)
  have tw: "takeWhile is_digit (?D ip @ F) = ?D ip"
    by (simp add: takeWhile_run [OF dig(1)] stop)
  have dw: "dropWhile is_digit (?D ip @ F) = F"
    by (simp add: dropWhile_run [OF dig(1)] stop)
  have ne: "?D ip \<noteq> []" using assms(2) by simp
  have vi: "digits_value (?D ip) = ?N ip" and vf: "digits_value (?D fp) = ?N fp"
    using assms(3,4) by (simp_all add: digits_value_digits)
  have parse: "parse_signed_decimal (sg @ ?D ip @ F) =
      (case F of
         [] \<Rightarrow> Some (signed neg (of_nat (?N ip)))
       | c # cs \<Rightarrow>
           if c = CHR ''.'' \<and> cs \<noteq> [] \<and> list_all is_digit cs
           then Some (signed neg (of_nat (?N ip) + of_nat (digits_value cs) / 10 ^ length cs))
           else None)"
    unfolding parse_signed_decimal_def sp Let_def prod.case tw dw vi using assms(2) by simp
  have all: "list_all is_digit (?D fp)" using dig(2) by (simp add: list_all_iff)
  have "parse_signed_decimal (sg @ ?D ip @ F)
      = Some (signed neg (of_nat (?N ip) + of_nat (?N fp) / 10 ^ length fp))"
  proof (cases "fp = []")
    case True
    then have "F = []" by (simp add: F_def)
    then show ?thesis unfolding parse using True by simp
  next
    case False
    then have "F = CHR ''.'' # ?D fp" by (simp add: F_def)
    then show ?thesis unfolding parse using False all by (simp add: vf)
  qed
  then show ?thesis by (simp add: F_def neg_def signed_def)
qed

lemma reading_of_token_decimal:
  fixes ip fp :: "nat list"
  assumes "sg = [] \<or> sg = ''-'' \<or> sg = ''+''"
      and "ip \<noteq> []" and "\<forall>d\<in>set ip. d < 10" and "\<forall>d\<in>set fp. d < 10"
      and "\<forall>c\<in>set unit. c \<in> set ''abcdefghijklmnopqrstuvwxyzABCDEFGHIJKLMNOPQRSTUVWXYZ''"
  shows "reading_of_token
           (sg @ map (\<lambda>d. ''0123456789'' ! d) ip
              @ (if fp = [] then [] else CHR ''.'' # map (\<lambda>d. ''0123456789'' ! d) fp) @ unit)
         = Some ((if sg = ''-'' then - 1 else 1)
             * (of_nat (foldl (\<lambda>a d. 10 * a + d) 0 ip)
                + of_nat (foldl (\<lambda>a d. 10 * a + d) 0 fp) / 10 ^ length fp))"
proof -
  let ?D = "map (\<lambda>d. ''0123456789'' ! d)"
  let ?t = "sg @ ?D ip @ (if fp = [] then [] else CHR ''.'' # ?D fp)"
  have u: "\<forall>c\<in>set unit. is_letter c"
    using assms(5) letters_are_letters by blast
  have lastd: "is_digit (last ?t)"
    using assms(2,3,4) by (auto simp: digit_char_props last_map)
  have "strip_unit (?t @ unit) = ?t"
    using u _ digit_not_letter [OF lastd] by (rule strip_unit_suffix) (use assms(2) in simp)
  then show ?thesis
    using parse_signed_decimal_digits [OF assms(1-4)] by (simp add: reading_of_token_def)
qed

subsection \<open>The reading of one line\<close>

lemma line_reading_absent: "target \<notin> set (tokens l) \<Longrightarrow> line_reading target l = None"
proof -
  assume "target \<notin> set (tokens l)"
  then have d: "dropWhile (\<lambda>t. t \<noteq> target) (tokens l) = []"
    by (auto simp: dropWhile_eq_Nil_conv)
  show ?thesis unfolding line_reading_def d by simp
qed

lemma line_reading_found:
  assumes "tokens l = pre @ target # mid @ num # rest"
      and "target \<notin> set pre"
      and "\<forall>t\<in>set mid. reading_of_token t = None"
      and "reading_of_token num = Some v"
  shows "line_reading target l = Some v"
proof -
  have "dropWhile (\<lambda>t. t \<noteq> target) (tokens l) = target # mid @ num # rest"
    using assms(1,2) by (auto simp: dropWhile_append3)
  then have "line_reading target l = first_match reading_of_token (mid @ num # rest)"
    unfolding line_reading_def by simp
  also have "\<dots> = Some v"
    using assms(3,4) by (rule first_match_skips)
  finally show ?thesis .
qed

subsection \<open>The contract of extractSignal\<close>

text \<open>
  Claim C2: when the target path is no token of any line of the output, as when it
  occurs only inside a longer path token, \<^verbatim>\<open>extractSignal\<close> fails with NotFoundError.
\<close>

theorem extractSignal_no_substring_match:
  assumes "\<forall>l\<in>set (lines_of rawText). target \<notin> set (tokens l)"
  shows "extractSignal rawText target = Inl NotFoundError"
proof -
  have "\<forall>l\<in>set (lines_of rawText). line_reading target l = None"
    using assms by (simp add: line_reading_absent)
  then have "first_match (line_reading target) (lines_of rawText) = None"
    by (rule first_match_none)
  then show ?thesis by (simp add: extractSignal_def)
qed

theorem extractSignal_no_substring_match_witness:
  "tokens scenario_B = [''1/1/3/2/10'', ''rx-signal:'', ''-5.0'', ''dBm'']
   \<and> take (length ''1/1/3/2/1'') ''1/1/3/2/10'' = ''1/1/3/2/1''
   \<and> extractSignal scenario_B ''1/1/3/2/1'' = Inl NotFoundError"
proof -
  have h: "\<forall>l\<in>set (lines_of scenario_B). ''1/1/3/2/1'' \<notin> set (tokens l)"
    by code_simp
  have t: "tokens scenario_B = [''1/1/3/2/10'', ''rx-signal:'', ''-5.0'', ''dBm'']"
    by code_simp
  have p: "take (length ''1/1/3/2/1'') ''1/1/3/2/10'' = ''1/1/3/2/1''"
    by simp
  show ?thesis
    using extractSignal_no_substring_match [OF h] t p by blast
qed

text \<open>
  Claim C3: let a line of the output, whatever blanks, tabs and carriage returns lead
  and trail it, have the target path as a token and, after it, a first numeric token
  that is a signed decimal: a sign or none, the digits \<open>ip\<close>, optionally a point and the
  digits \<open>fp\<close>, and optionally a unit of letters attached. If no earlier line has a
  reading for the target, \<^verbatim>\<open>extractSignal\<close> returns exactly the number the decimal
  denotes, whatever tokens, such as the unit dBm, follow the number. Scenario A gives
  -19.2.
\<close>

theorem extractSignal_reads_target_line:
  fixes ip fp :: "nat list"
  assumes "lines_of rawText = before @ (lead @ l @ trail) # after"
      and "\<forall>b\<in>set before. line_reading target b = None"
      and "set lead \<subseteq> {CHR '' '', CHR 0x09, CHR 0x0D}"
      and "set trail \<subseteq> {CHR '' '', CHR 0x09, CHR 0x0D}"
      and "tokens l = pre @ target # mid @ num # rest"
      and "target \<notin> set pre"
      and "\<forall>t\<in>set mid. reading_of_token t = None"
      and "num = sg @ map (\<lambda>d. ''0123456789'' ! d) ip
                 @ (if fp = [] then [] else CHR ''.'' # map (\<lambda>d. ''0123456789'' ! d) fp) @ unit"
      and "sg = [] \<or> sg = ''-'' \<or> sg = ''+''"
      and "ip \<noteq> []" and "\<forall>d\<in>set ip. d < 10" and "\<forall>d\<in>set fp. d < 10"
      and "\<forall>c\<in>set unit. c \<in> set ''abcdefghijklmnopqrstuvwxyzABCDEFGHIJKLMNOPQRSTUVWXYZ''"
  shows "extractSignal rawText target =
           Inr ((if sg = ''-'' then - 1 else 1)
                * (of_nat (foldl (\<lambda>a d. 10 * a + d) 0 ip)
                   + of_nat (foldl (\<lambda>a d. 10 * a + d) 0 fp) / 10 ^ length fp))"
proof -
  let ?v = "(if sg = ''-'' then - 1 else 1)
                * (of_nat (foldl (\<lambda>a d. 10 * a + d) 0 ip)
                   + of_nat (foldl (\<lambda>a d. 10 * a + d) 0 fp) / 10 ^ length fp) :: rat"
  have sp: "\<forall>c\<in>set lead. is_space c" "\<forall>c\<in>set trail. is_space c"
    using assms(3,4) by (auto simp: is_space_def)
  have num: "reading_of_token num = Some ?v"
    unfolding assms(8) using assms(9-13) by (rule reading_of_token_decimal)
  have "tokens (lead @ l @ trail) = tokens l"
    using sp by (simp add: tokens_lead tokens_trail)
  then have "line_reading target (lead @ l @ trail) = line_reading target l"
    by (simp add: line_reading_def)
  also have "\<dots> = Some ?v"
    using assms(5-7) num by (rule line_reading_found)
  finally have "first_match (line_reading target) (before @ (lead @ l @ trail) # after) = Some ?v"
    using assms(2) by (simp add: first_match_skips)
  then show ?thesis
    by (simp add: extractSignal_def assms(1))
qed

theorem extractSignal_reads_target_line_witness:
  "extractSignal scenario_A ''1/1/3/2/1'' = Inr (- 192 / 10)
   \<and> lines_of transcript =
       [''show equipment ont optics'' @ [CHR 0x0D],
        ''  '' @ scenario_A @ '' '' @ [CHR 0x0D],
        ''1/1/3/2/1 rx-signal: -7.5 dBm'' @ [CHR 0x0D],
        ''admin#'']
   \<and> extractSignal transcript ''1/1/3/2/1'' = Inr (- 192 / 10)
   \<and> extractSignal compact_line ''1/1/3/2/1'' = Inr 7"
proof -
  let ?D = "map (\<lambda>d. ''0123456789'' ! d)"
  let ?letters = "''abcdefghijklmnopqrstuvwxyzABCDEFGHIJKLMNOPQRSTUVWXYZ''"
  have tk: "tokens scenario_A = [] @ ''1/1/3/2/1'' # [''rx-signal:''] @ ''-19.2'' # [''dBm'']"
    by code_simp
  have pre: "''1/1/3/2/1'' \<notin> set []" by simp
  have mid: "\<forall>t\<in>set [''rx-signal:'']. reading_of_token t = None" by code_simp
  have num: "''-19.2'' = ''-'' @ ?D [1, 9] @ (if [2 :: nat] = [] then [] else CHR ''.'' # ?D [2]) @ []"
    by code_simp
  have sg: "''-'' = [] \<or> ''-'' = ''-'' \<or> ''-'' = ''+''" by simp
  have ds: "[1, 9 :: nat] \<noteq> []" "\<forall>d\<in>set [1, 9 :: nat]. d < 10" "\<forall>d\<in>set [2 :: nat]. d < 10"
    by simp_all
  have un: "\<forall>c\<in>set []. c \<in> set ?letters" by simp
  have none: "set [] \<subseteq> {CHR '' '', CHR 0x09, CHR 0x0D}" by simp
  have la: "lines_of scenario_A = [] @ ([] @ scenario_A @ []) # []" by code_simp
  have ba: "\<forall>b\<in>set []. line_reading ''1/1/3/2/1'' b = None" by simp
  have lt: "lines_of transcript =
      [''show equipment ont optics'' @ [CHR 0x0D]]
      @ (''  '' @ scenario_A @ ('' '' @ [CHR 0x0D]))
      # [''1/1/3/2/1 rx-signal: -7.5 dBm'' @ [CHR 0x0D], ''admin#'']"
    by code_simp
  have bt: "\<forall>b\<in>set [''show equipment ont optics'' @ [CHR 0x0D]]. line_reading ''1/1/3/2/1'' b = None"
    by code_simp
  have lead: "set ''  '' \<subseteq> {CHR '' '', CHR 0x09, CHR 0x0D}"
    and trail: "set ('' '' @ [CHR 0x0D]) \<subseteq> {CHR '' '', CHR 0x09, CHR 0x0D}"
    by simp_all
  have val: "(if ''-'' = ''-'' then - 1 else 1)
        * (of_nat (foldl (\<lambda>a d. 10 * a + d) 0 [1, 9 :: nat])
           + of_nat (foldl (\<lambda>a d. 10 * a + d) 0 [2 :: nat]) / 10 ^ length [2 :: nat]) = (- 192 / 10 :: rat)"
    by simp
  have A: "extractSignal scenario_A ''1/1/3/2/1'' = Inr (- 192 / 10)"
    using extractSignal_reads_target_line [OF la ba none none tk pre mid num sg ds un]
    unfolding val .
  have T: "extractSignal transcript ''1/1/3/2/1'' = Inr (- 192 / 10)"
    using extractSignal_reads_target_line [OF lt bt lead trail tk pre mid num sg ds un]
    unfolding val .
  have L: "lines_of transcript =
       [''show equipment ont optics'' @ [CHR 0x0D],
        ''  '' @ scenario_A @ '' '' @ [CHR 0x0D],
        ''1/1/3/2/1 rx-signal: -7.5 dBm'' @ [CHR 0x0D],
        ''admin#'']"
    by code_simp
  have lc: "lines_of compact_line = [] @ ([] @ compact_line @ []) # []" by code_simp
  have tc: "tokens compact_line = [] @ ''1/1/3/2/1'' # [] @ ''+7dBm'' # []" by code_simp
  have mc: "\<forall>t\<in>set []. reading_of_token t = None" by simp
  have nc: "''+7dBm'' = ''+'' @ ?D [7] @ (if ([] :: nat list) = [] then [] else CHR ''.'' # ?D []) @ ''dBm''"
    by code_simp
  have sc: "''+'' = [] \<or> ''+'' = ''-'' \<or> ''+'' = ''+''" by simp
  have dc: "[7 :: nat] \<noteq> []" "\<forall>d\<in>set [7 :: nat]. d < 10" "\<forall>d\<in>set ([] :: nat list). d < 10"
    by simp_all
  have uc: "\<forall>c\<in>set ''dBm''. c \<in> set ?letters" by simp
  have vc: "(if ''+'' = ''-'' then - 1 else 1)
        * (of_nat (foldl (\<lambda>a d. 10 * a + d) 0 [7 :: nat])
           + of_nat (foldl (\<lambda>a d. 10 * a + d) 0 ([] :: nat list)) / 10 ^ length ([] :: nat list)) = (7 :: rat)"
    by simp
  have C: "extractSignal compact_line ''1/1/3/2/1'' = Inr 7"
    using extractSignal_reads_target_line [OF lc ba none none tc pre mc nc sc dc uc]
    unfolding vc .
  show ?thesis using A T L C by blast
qed

text \<open>
  Claim C4: the first line, in output order, that has a reading for the target path
  decides the result: \<^verbatim>\<open>extractSignal\<close> returns that line's value, and two outputs that
  agree up to that line give the same result whatever lines follow, matching or not.
\<close>

theorem extractSignal_first_match_wins:
  assumes "lines_of rawText = before @ l # after"
      and "lines_of rawText' = before @ l # after'"
      and "\<forall>b\<in>set before. line_reading target b = None"
      and "line_reading target l = Some v"
  shows "extractSignal rawText target = Inr v
       \<and> extractSignal rawText' target = extractSignal rawText target"
  using assms first_match_skips [of before "line_reading target" l v]
  by (simp add: extractSignal_def)

theorem extractSignal_first_match_wins_witness:
  "line_reading ''1/1/3/2/1'' (''1/1/3/2/1 rx-signal: -19.2 dBm'') = Some (- 192 / 10)
   \<and> line_reading ''1/1/3/2/1'' (''1/1/3/2/1 rx-signal: -7.5 dBm'') = Some (- 75 / 10)
   \<and> extractSignal (''banner'' @ [CHR 0x0A] @ ''1/1/3/2/1 rx-signal: -19.2 dBm'' @ [CHR 0x0A]
        @ ''1/1/3/2/1 rx-signal: -7.5 dBm'') ''1/1/3/2/1'' = Inr (- 192 / 10)
   \<and> extractSignal (''banner'' @ [CHR 0x0A] @ ''1/1/3/2/1 rx-signal: -19.2 dBm'' @ [CHR 0x0A]
        @ ''1/1/3/2/1 rx-signal: 3 dBm'' @ [CHR 0x0A] @ ''1/1/3/2/1 rx-signal: -40 dBm'') ''1/1/3/2/1''
       = Inr (- 192 / 10)"
proof -
  let ?l = "''1/1/3/2/1 rx-signal: -19.2 dBm''"
  let ?raw = "''banner'' @ [CHR 0x0A] @ ?l @ [CHR 0x0A] @ ''1/1/3/2/1 rx-signal: -7.5 dBm''"
  let ?raw' = "''banner'' @ [CHR 0x0A] @ ?l @ [CHR 0x0A]
        @ ''1/1/3/2/1 rx-signal: 3 dBm'' @ [CHR 0x0A] @ ''1/1/3/2/1 rx-signal: -40 dBm''"
  have a: "lines_of ?raw = [''banner''] @ ?l # [''1/1/3/2/1 rx-signal: -7.5 dBm'']"
    by code_simp
  have b: "lines_of ?raw' = [''banner''] @ ?l # [''1/1/3/2/1 rx-signal: 3 dBm'', ''1/1/3/2/1 rx-signal: -40 dBm'']"
    by code_simp
  have c: "\<forall>b\<in>set [''banner'']. line_reading ''1/1/3/2/1'' b = None"
    by code_simp
  have d: "line_reading ''1/1/3/2/1'' ?l = Some (- 192 / 10)"
    by code_simp
  have e: "line_reading ''1/1/3/2/1'' (''1/1/3/2/1 rx-signal: -7.5 dBm'') = Some (- 75 / 10)"
    by code_simp
  show ?thesis
    using extractSignal_first_match_wins [OF a b c d] d e by simp
qed

end
